theory Spec2Isabelle
  imports Complex_Main
begin

section \<open>The touch pad of ha-touch-pad.ts\<close>

text \<open>
  The class \<open>TouchPad\<close> of \<^verbatim>\<open>src/ha-touch-pad.ts\<close> is embedded as a record of its
  private fields together with the part of the browser the handlers act on: the inline
  style of the circle element, the table of active timers and the events dispatched on
  the element. JavaScript numbers are read as exact numbers: coordinates and the two
  distance thresholds are reals, \<open>Date.now()\<close> and \<open>tap_timeout\<close> are whole
  milliseconds. A field that is still \<open>undefined\<close> is \<open>None\<close>.
  The calls \<open>event.preventDefault()\<close> and \<open>event.stopPropagation()\<close>, which act on
  the DOM event object and not on the component, are left out.
\<close>

subsection \<open>Data\<close>

text \<open>
  What the handlers read of a \<open>TouchEvent | MouseEvent\<close>: \<open>isTouch\<close> is
  \<open>event instanceof TouchEvent\<close>; \<open>clientX\<close> and \<open>clientY\<close> are those of
  \<open>event.changedTouches[0]\<close> for a touch event and of the event itself otherwise.
\<close>

record pointer_event =
  isTouch :: bool
  clientX :: real
  clientY :: real

text \<open>
  The layout read by \<open>_handleMove\<close>: \<open>this.offsetWidth\<close>, \<open>this.offsetHeight\<close>,
  \<open>this._circle.offsetWidth\<close> and \<open>this._circle.offsetHeight\<close> (integers in the DOM).
\<close>

record geometry =
  offsetWidth :: int
  offsetHeight :: int
  circleWidth :: int
  circleHeight :: int

text \<open>
  The inline style of the circle. \<open>Unset\<close> is the state before any handler wrote the
  property (the style sheet then places the circle at 50%), \<open>Percent50\<close> is the string
  \<^verbatim>\<open>50%\<close>, and \<open>Calc50Plus d\<close> is \<^verbatim>\<open>calc(50% + ${d}px)\<close>.
\<close>

datatype css_pos = Unset | Percent50 | Calc50Plus real

record circle_style =
  style_transition :: string
  style_left :: css_pos
  style_top :: css_pos

fun offset :: "css_pos \<Rightarrow> real" where
  "offset Unset = 0"
| "offset Percent50 = 0"
| "offset (Calc50Plus d) = d"

text \<open>
  \<open>InternalConfig\<close> is declared in \<^verbatim>\<open>./types\<close>; the handlers read the three thresholds
  and the properties \<^verbatim>\<open>${action}_action\<close>. The latter are the map \<open>actions\<close>, from the
  property name to the action descriptor stored there. A descriptor is an object, hence
  truthy; a missing property or a falsy value is \<open>None\<close>.
\<close>

record 'd internal_config =
  swipe_threshold :: real
  tap_threshold :: real
  tap_timeout :: int
  actions :: "string \<Rightarrow> 'd option"

text \<open>The \<open>hass-action\<close> event built by \<open>_fireEvent\<close>, with its \<open>detail\<close>.\<close>

record 'd hass_event =
  event_type :: string
  bubbles :: bool
  composed :: bool
  detail_action :: string
  detail_tap_action :: 'd

text \<open>
  The component. \<open>timers\<close> is the browser's list of active timers (handle and due time,
  in the order of creation) and \<open>nextTimer\<close> the next handle \<open>setTimeout\<close> returns;
  \<open>connected\<close> tells whether the six listeners are registered; \<open>fired\<close> logs the
  argument of every call of \<open>_fireEvent\<close>, and \<open>dispatched\<close> every event passed to
  \<open>dispatchEvent\<close>.
\<close>

record 'd touch_pad =
  config :: "'d internal_config"
  circle :: circle_style
  startX :: "real option"
  startY :: "real option"
  lastTouch :: "int option"
  timeout :: "nat option"
  mouseDown :: bool
  timers :: "(nat \<times> int) list"
  nextTimer :: nat
  connected :: bool
  fired :: "string list"
  dispatched :: "'d hass_event list"

definition initial :: "'d internal_config \<Rightarrow> 'd touch_pad" where
  "initial cfg =
     \<lparr>config = cfg,
      circle = \<lparr>style_transition = [], style_left = Unset, style_top = Unset\<rparr>,
      startX = None, startY = None, lastTouch = None, timeout = None, mouseDown = False,
      timers = [], nextTimer = 1, connected = False, fired = [], dispatched = []\<rparr>"

subsection \<open>Timers\<close>

text \<open>
  \<open>clearTimeout(h)\<close> removes the timer with handle \<open>h\<close>, if it is still active;
  \<open>clearTimeout(undefined)\<close> does nothing. \<open>setTimeout(cb, delay)\<close> at time \<open>now\<close>
  adds a timer due at \<open>now + delay\<close>, a negative delay counting as 0, and returns its
  handle. Every timer of the component has the same callback, \<open>timerCallback\<close> below.
\<close>

definition clearTimeout :: "nat option \<Rightarrow> 'd touch_pad \<Rightarrow> 'd touch_pad" where
  "clearTimeout h s =
     (case h of
        None \<Rightarrow> s
      | Some i \<Rightarrow> s\<lparr>timers := filter (\<lambda>p. fst p \<noteq> i) (timers s)\<rparr>)"

definition setTimeout :: "int \<Rightarrow> int \<Rightarrow> 'd touch_pad \<Rightarrow> nat \<times> 'd touch_pad" where
  "setTimeout now delay s =
     (nextTimer s,
      s\<lparr>timers := timers s @ [(nextTimer s, now + max 0 delay)],
        nextTimer := Suc (nextTimer s)\<rparr>)"

subsection \<open>The handlers\<close>

definition fireEvent :: "string \<Rightarrow> 'd touch_pad \<Rightarrow> 'd touch_pad" where
  "fireEvent action s =
     (let s' = s\<lparr>fired := fired s @ [action]\<rparr> in
      case actions (config s') (action @ ''_action'') of
        None \<Rightarrow> s'
      | Some c \<Rightarrow>
          s'\<lparr>dispatched := dispatched s' @
               [\<lparr>event_type = ''hass-action'', bubbles = True, composed = True,
                 detail_action = ''tap'', detail_tap_action = c\<rparr>]\<rparr>)"

definition handleStart :: "pointer_event \<Rightarrow> 'd touch_pad \<Rightarrow> 'd touch_pad" where
  "handleStart ev s =
     s\<lparr>mouseDown := \<not> isTouch ev,
       startX := Some (clientX ev),
       startY := Some (clientY ev),
       circle := (circle s)\<lparr>style_transition := ''none''\<rparr>\<rparr>"

text \<open>
  With \<open>_startX\<close> still \<open>undefined\<close> the difference is \<open>NaN\<close>, the string assigned is
  not a length and the assignment to the style property is dropped.
\<close>

definition handleMove :: "pointer_event \<Rightarrow> geometry \<Rightarrow> 'd touch_pad \<Rightarrow> 'd touch_pad" where
  "handleMove ev g s =
     (if \<not> isTouch ev \<and> \<not> mouseDown s then s
      else
        let maxDeltaX = real_of_int (offsetWidth g - circleWidth g) / 2;
            maxDeltaY = real_of_int (offsetHeight g - circleHeight g) / 2;
            left = (case startX s of
                      None \<Rightarrow> style_left (circle s)
                    | Some x0 \<Rightarrow> Calc50Plus (max (min (clientX ev - x0) maxDeltaX) (- maxDeltaX)));
            top = (case startY s of
                     None \<Rightarrow> style_top (circle s)
                   | Some y0 \<Rightarrow> Calc50Plus (max (min (clientY ev - y0) maxDeltaY) (- maxDeltaY)))
        in s\<lparr>circle := (circle s)\<lparr>style_left := left, style_top := top\<rparr>\<rparr>)"

text \<open>
  \<open>_handleEnd\<close>, with \<open>now\<close> the value of \<open>Date.now()\<close>. A comparison with \<open>NaN\<close> is
  false: with \<open>_startX\<close> or \<open>_startY\<close> undefined no branch of the classification is
  taken, and with \<open>_lastTouch\<close> undefined the release is not a double tap.
\<close>

definition handleEnd :: "pointer_event \<Rightarrow> int \<Rightarrow> 'd touch_pad \<Rightarrow> 'd touch_pad" where
  "handleEnd ev now s =
     (let s1 = s\<lparr>mouseDown := False\<rparr> in
      if \<not> isTouch ev \<and> \<not> mouseDown s1 then s1
      else
        let cfg = config s1;
            s2 = s1\<lparr>circle := \<lparr>style_transition = ''top 0.5s, left 0.5s'',
                                style_left = Percent50, style_top = Percent50\<rparr>\<rparr>
        in case (startX s1, startY s1) of
             (Some x0, Some y0) \<Rightarrow>
               let rawDeltaX = clientX ev - x0;
                   rawDeltaY = clientY ev - y0;
                   deltaX = \<bar>rawDeltaX\<bar>;
                   deltaY = \<bar>rawDeltaY\<bar>
               in if deltaX < tap_threshold cfg \<and> deltaY < tap_threshold cfg then
                    let s3 = clearTimeout (timeout s2) s2;
                        s4 = (if (case lastTouch s3 of
                                    None \<Rightarrow> False
                                  | Some l \<Rightarrow> now - l < tap_timeout cfg)
                              then fireEvent ''double_tap'' s3
                              else (let (h, s') = setTimeout now (tap_timeout cfg) s3
                                    in s'\<lparr>timeout := Some h\<rparr>))
                    in s4\<lparr>lastTouch := Some now\<rparr>
                  else if deltaX > deltaY \<and> deltaX > swipe_threshold cfg then
                    fireEvent (if rawDeltaX > 0 then ''right'' else ''left'') s2
                  else if deltaY > deltaX \<and> deltaY > swipe_threshold cfg then
                    fireEvent (if rawDeltaY > 0 then ''down'' else ''up'') s2
                  else s2
           | _ \<Rightarrow> s2)"

text \<open>The callback given to \<open>setTimeout\<close> in \<open>_handleEnd\<close>.\<close>

definition timerCallback :: "'d touch_pad \<Rightarrow> 'd touch_pad" where
  "timerCallback s = (let s' = fireEvent ''tap'' s in clearTimeout (timeout s') s')"

definition connectedCallback :: "'d touch_pad \<Rightarrow> 'd touch_pad" where
  "connectedCallback s = s\<lparr>connected := True\<rparr>"

definition disconnectedCallback :: "'d touch_pad \<Rightarrow> 'd touch_pad" where
  "disconnectedCallback s = s\<lparr>connected := False\<rparr>"

subsection \<open>The event loop\<close>

text \<open>
  The timer that runs next at time \<open>t\<close>: among the active timers due at \<open>t\<close> or before,
  the one due first, and the older one of two due together.
\<close>

fun earliest :: "(nat \<times> int) list \<Rightarrow> (nat \<times> int) option" where
  "earliest [] = None"
| "earliest (p # ps) =
     (case earliest ps of
        None \<Rightarrow> Some p
      | Some q \<Rightarrow> if snd q < snd p then Some q else Some p)"

definition dueTimer :: "int \<Rightarrow> (nat \<times> int) list \<Rightarrow> (nat \<times> int) option" where
  "dueTimer t ts = earliest (filter (\<lambda>p. snd p \<le> t) ts)"

text \<open>
  \<open>runTimers t\<close> runs the event loop up to time \<open>t\<close> with no input arriving: as long as a
  timer is due it is taken out of the table and its callback runs. The callback starts no
  timer, so the loop ends.
\<close>

function runTimers :: "int \<Rightarrow> 'd touch_pad \<Rightarrow> 'd touch_pad" where
  "runTimers t s =
     (case dueTimer t (timers s) of
        None \<Rightarrow> s
      | Some q \<Rightarrow>
          runTimers t (timerCallback (s\<lparr>timers := filter (\<lambda>p. fst p \<noteq> fst q) (timers s)\<rparr>)))"
  by pat_completeness auto
termination
proof (relation "measure (\<lambda>(t, s). length (timers s))")
  show "wf (measure (\<lambda>(t, s :: 'd touch_pad). length (timers s)))"
    by simp
next
  fix t :: int and s :: "'d touch_pad" and q :: "nat \<times> int"
  let ?rest = "filter (\<lambda>p. fst p \<noteq> fst q) (timers s)"
  assume due: "dueTimer t (timers s) = Some q"
  have mem: "earliest ps = Some r \<Longrightarrow> r \<in> set ps" for ps and r :: "nat \<times> int"
    by (induction ps arbitrary: r) (auto split: option.splits if_splits)
  have "q \<in> set (filter (\<lambda>p. snd p \<le> t) (timers s))"
    using due unfolding dueTimer_def by (rule mem)
  then have "q \<in> set (timers s)"
    by simp
  moreover have "q \<in> set ts \<Longrightarrow> length (filter (\<lambda>p. fst p \<noteq> fst q) ts) < length ts"
    for ts :: "(nat \<times> int) list"
    by (induction ts) (auto simp: less_Suc_eq_le)
  ultimately have less: "length ?rest < length (timers s)"
    by simp
  have "timers (timerCallback x) =
      (case timeout x of None \<Rightarrow> timers x | Some i \<Rightarrow> filter (\<lambda>p. fst p \<noteq> i) (timers x))"
    for x :: "'d touch_pad"
    by (simp add: timerCallback_def fireEvent_def clearTimeout_def Let_def split: option.splits)
  then have "length (timers (timerCallback x)) \<le> length (timers x)" for x :: "'d touch_pad"
    by (simp split: option.split)
  from this [of "s\<lparr>timers := ?rest\<rparr>"]
  have "length (timers (timerCallback (s\<lparr>timers := ?rest\<rparr>))) \<le> length ?rest"
    by simp
  with less show "((t, timerCallback (s\<lparr>timers := ?rest\<rparr>)), (t, s))
      \<in> measure (\<lambda>(t, s). length (timers s))"
    by simp
qed

declare runTimers.simps [simp del]

text \<open>
  The inputs of the component: the three pointer events, as delivered to its listeners,
  and the two lifecycle callbacks. A pointer event reaches a handler only while the
  listeners are registered. An input at time \<open>t\<close> is handled after the timers due by then.
\<close>

datatype input =
  PressStart pointer_event
| PointerMove pointer_event geometry
| PressEnd pointer_event
| Connect
| Disconnect

fun deliver :: "input \<Rightarrow> int \<Rightarrow> 'd touch_pad \<Rightarrow> 'd touch_pad" where
  "deliver (PressStart ev) t s = (if connected s then handleStart ev s else s)"
| "deliver (PointerMove ev g) t s = (if connected s then handleMove ev g s else s)"
| "deliver (PressEnd ev) t s = (if connected s then handleEnd ev t s else s)"
| "deliver Connect t s = connectedCallback s"
| "deliver Disconnect t s = disconnectedCallback s"

definition step :: "int \<times> input \<Rightarrow> 'd touch_pad \<Rightarrow> 'd touch_pad" where
  "step e s = deliver (snd e) (fst e) (runTimers (fst e) s)"

definition run :: "(int \<times> input) list \<Rightarrow> 'd touch_pad \<Rightarrow> 'd touch_pad" where
  "run es s = foldl (\<lambda>s e. step e s) s es"

subsection \<open>Auxiliary notions\<close>

text \<open>
  The timer table is \<open>tidy\<close> when it holds no timer, or one timer, which the field
  \<open>_timeout\<close> names.
\<close>

definition tidy :: "'d touch_pad \<Rightarrow> bool" where
  "tidy s = (case timers s of
               [] \<Rightarrow> True
             | [p] \<Rightarrow> timeout s = Some (fst p)
             | _ \<Rightarrow> False)"

text \<open>The style \<open>_handleEnd\<close> writes: the circle back at the centre, the transition on.\<close>

definition centred :: circle_style where
  "centred = \<lparr>style_transition = ''top 0.5s, left 0.5s'', style_left = Percent50, style_top = Percent50\<rparr>"

text \<open>
  The tap branch of \<open>_handleEnd\<close> (from \<open>Date.now()\<close> to the assignment of
  \<open>_lastTouch\<close>), as a function of the state \<open>s2\<close> reached before it.
\<close>

definition tapRelease :: "int \<Rightarrow> 'd touch_pad \<Rightarrow> 'd touch_pad" where
  "tapRelease now s2 =
     (let s3 = clearTimeout (timeout s2) s2;
          s4 = (if (case lastTouch s3 of
                      None \<Rightarrow> False
                    | Some l \<Rightarrow> now - l < tap_timeout (config s2))
                then fireEvent ''double_tap'' s3
                else (let (h, s') = setTimeout now (tap_timeout (config s2)) s3
                      in s'\<lparr>timeout := Some h\<rparr>))
      in s4\<lparr>lastTouch := Some now\<rparr>)"

text \<open>
  The configuration \<open>setConfig\<close> builds from a user configuration that sets no
  threshold: the default thresholds, and the action properties \<open>acts\<close> of the user.
\<close>

definition defaults :: "(string \<Rightarrow> 'd option) \<Rightarrow> 'd internal_config" where
  "defaults acts = \<lparr>swipe_threshold = 50, tap_threshold = 5, tap_timeout = 200, actions = acts\<rparr>"

text \<open>
  A configuration for the examples: the default thresholds and an action for \<open>tap\<close>,
  \<open>double_tap\<close> and \<open>right\<close>, none for the other three gestures.
\<close>

definition exampleConfig :: "nat internal_config" where
  "exampleConfig =
     defaults [''tap_action'' \<mapsto> 1, ''double_tap_action'' \<mapsto> 2, ''right_action'' \<mapsto> 3]"

text \<open>
  An input is a qualifying tap release in a state when it is a release that reaches
  the tap branch of \<open>_handleEnd\<close> there: the listeners are registered, the event passes
  the guard, and both displacements from the origin are below \<open>tap_threshold\<close>.
\<close>

fun qualifying :: "'d touch_pad \<Rightarrow> input \<Rightarrow> bool" where
  "qualifying s (PressEnd ev) =
     (connected s \<and> isTouch ev \<and>
      (case (startX s, startY s) of
         (Some x0, Some y0) \<Rightarrow>
           \<bar>clientX ev - x0\<bar> < tap_threshold (config s) \<and>
           \<bar>clientY ev - y0\<bar> < tap_threshold (config s)
       | _ \<Rightarrow> False))"
| "qualifying s (PressStart ev) = False"
| "qualifying s (PointerMove ev g) = False"
| "qualifying s Connect = False"
| "qualifying s Disconnect = False"

text \<open>\<open>noTapRelease es s\<close>: run from \<open>s\<close>, no input of \<open>es\<close> is a qualifying tap release.\<close>

fun noTapRelease :: "(int \<times> input) list \<Rightarrow> 'd touch_pad \<Rightarrow> bool" where
  "noTapRelease [] s = True"
| "noTapRelease (e # es) s = (\<not> qualifying s (snd e) \<and> noTapRelease es (step e s))"

text \<open>The \<open>tap\<close> and \<open>double_tap\<close> gestures fired so far, and the \<open>tap\<close> gestures alone.\<close>

definition tapLog :: "'d touch_pad \<Rightarrow> string list" where
  "tapLog s = filter (\<lambda>g. g = ''tap'' \<or> g = ''double_tap'') (fired s)"

definition taps :: "'d touch_pad \<Rightarrow> string list" where
  "taps s = filter (\<lambda>g. g = ''tap'') (fired s)"

text \<open>Two states agree on everything the tap branch and the timers depend on.\<close>

definition sameTaps :: "'d touch_pad \<Rightarrow> 'd touch_pad \<Rightarrow> bool" where
  "sameTaps s s' =
     (timers s' = timers s \<and> timeout s' = timeout s \<and> lastTouch s' = lastTouch s \<and>
      config s' = config s \<and> tapLog s' = tapLog s)"

section \<open>Lemmas\<close>

lemma timers_fireEvent: "timers (fireEvent a s) = timers s"
  by (simp add: fireEvent_def Let_def split: option.splits)

lemma timeout_fireEvent: "timeout (fireEvent a s) = timeout s"
  by (simp add: fireEvent_def Let_def split: option.splits)

lemma fireEvent_eq:
  "fireEvent a s =
     s\<lparr>fired := fired s @ [a],
       dispatched := dispatched s @
         (case actions (config s) (a @ ''_action'') of
            None \<Rightarrow> []
          | Some c \<Rightarrow> [\<lparr>event_type = ''hass-action'', bubbles = True, composed = True,
                        detail_action = ''tap'', detail_tap_action = c\<rparr>])\<rparr>"
  by (simp add: fireEvent_def Let_def split: option.split)

lemma fired_fireEvent: "fired (fireEvent a s) = fired s @ [a]"
  by (simp add: fireEvent_def Let_def split: option.splits)

lemma tidy_cases:
  assumes "tidy s"
  obtains "timers s = []" | i d where "timers s = [(i, d)]" "timeout s = Some i"
  using assms by (auto simp: tidy_def split: list.splits)

lemma runTimers_idle: "dueTimer t (timers s) = None \<Longrightarrow> runTimers t s = s"
  by (simp add: runTimers.simps)

lemma runTimers_empty: "timers s = [] \<Longrightarrow> runTimers t s = s"
  by (simp add: runTimers_idle dueTimer_def)

lemma runTimers_early: "timers s = [(i, d)] \<Longrightarrow> t < d \<Longrightarrow> runTimers t s = s"
  by (simp add: runTimers_idle dueTimer_def)

lemma clearTimeout_empty: "timers s = [] \<Longrightarrow> clearTimeout h s = s"
  by (simp add: clearTimeout_def split: option.splits)

lemma runTimers_due:
  assumes "timers s = [(i, d)]" "d \<le> t"
  shows "runTimers t s = fireEvent ''tap'' (s\<lparr>timers := []\<rparr>)"
proof -
  have due: "dueTimer t (timers s) = Some (i, d)"
    using assms by (simp add: dueTimer_def)
  have "timers (fireEvent ''tap'' (s\<lparr>timers := []\<rparr>)) = []"
    by (simp add: timers_fireEvent)
  then have cb: "timerCallback (s\<lparr>timers := []\<rparr>) = fireEvent ''tap'' (s\<lparr>timers := []\<rparr>)"
    by (simp add: timerCallback_def Let_def clearTimeout_empty)
  have "runTimers t s = runTimers t (timerCallback (s\<lparr>timers := []\<rparr>))"
    using due assms by (subst runTimers.simps) simp
  also have "\<dots> = fireEvent ''tap'' (s\<lparr>timers := []\<rparr>)"
    unfolding cb by (rule runTimers_empty) (simp add: timers_fireEvent)
  finally show ?thesis .
qed

lemma runTimers_tidy:
  assumes "tidy s"
  shows "runTimers t s =
           (case timers s of
              [] \<Rightarrow> s
            | p # ps \<Rightarrow> if snd p \<le> t then fireEvent ''tap'' (s\<lparr>timers := []\<rparr>) else s)"
  using assms
  by (rule tidy_cases) (auto simp: runTimers_empty runTimers_early runTimers_due)

lemma tidy_runTimers: "tidy s \<Longrightarrow> tidy (runTimers t s)"
  by (erule tidy_cases)
     (auto simp: runTimers_tidy tidy_def timers_fireEvent timeout_fireEvent)

lemma tidy_eqI: "tidy s \<Longrightarrow> timers s' = timers s \<Longrightarrow> timeout s' = timeout s \<Longrightarrow> tidy s'"
  by (simp add: tidy_def split: list.splits)

lemma tidy_handleStart: "tidy s \<Longrightarrow> tidy (handleStart ev s)"
  by (erule tidy_eqI) (simp_all add: handleStart_def)

lemma tidy_handleMove: "tidy s \<Longrightarrow> tidy (handleMove ev g s)"
  by (erule tidy_eqI) (simp_all add: handleMove_def Let_def)

lemma tidy_fireEvent: "tidy s \<Longrightarrow> tidy (fireEvent a s)"
  by (erule tidy_eqI) (simp_all add: timers_fireEvent timeout_fireEvent)

lemma handleEnd_mouse: "\<not> isTouch ev \<Longrightarrow> handleEnd ev now s = s\<lparr>mouseDown := False\<rparr>"
  by (simp add: handleEnd_def Let_def)

lemma handleEnd_no_origin:
  assumes "isTouch ev" "startX s = None \<or> startY s = None"
  shows "handleEnd ev now s = s\<lparr>mouseDown := False, circle := centred\<rparr>"
proof (cases "startX s")
  case None
  with assms(1) show ?thesis
    by (simp add: handleEnd_def Let_def centred_def)
next
  case (Some x0)
  with assms have "startY s = None"
    by simp
  with Some assms(1) show ?thesis
    by (simp add: handleEnd_def Let_def centred_def)
qed

lemma handleEnd_touch:
  assumes "isTouch ev" "startX s = Some x0" "startY s = Some y0"
    and "dx = \<bar>clientX ev - x0\<bar>" "dy = \<bar>clientY ev - y0\<bar>"
  shows "handleEnd ev now s =
    (if dx < tap_threshold (config s) \<and> dy < tap_threshold (config s) then
       tapRelease now (s\<lparr>mouseDown := False, circle := centred\<rparr>)
     else if dx > dy \<and> dx > swipe_threshold (config s) then
       fireEvent (if clientX ev - x0 > 0 then ''right'' else ''left'') (s\<lparr>mouseDown := False, circle := centred\<rparr>)
     else if dy > dx \<and> dy > swipe_threshold (config s) then
       fireEvent (if clientY ev - y0 > 0 then ''down'' else ''up'') (s\<lparr>mouseDown := False, circle := centred\<rparr>)
     else s\<lparr>mouseDown := False, circle := centred\<rparr>)"
  unfolding handleEnd_def Let_def tapRelease_def
  using assms(1-3)
  by (simp add: assms(4-5) [symmetric] centred_def split del: if_split cong: if_cong option.case_cong)

lemma tapRelease_double:
  assumes "lastTouch s = Some l" "now - l < tap_timeout (config s)"
  shows "tapRelease now s = (fireEvent ''double_tap'' (clearTimeout (timeout s) s))\<lparr>lastTouch := Some now\<rparr>"
  using assms by (simp add: tapRelease_def Let_def clearTimeout_def split: option.split)

lemma tapRelease_single:
  assumes "case lastTouch s of None \<Rightarrow> True | Some l \<Rightarrow> tap_timeout (config s) \<le> now - l"
  shows "tapRelease now s =
    (clearTimeout (timeout s) s)
       \<lparr>timers := timers (clearTimeout (timeout s) s) @ [(nextTimer s, now + max 0 (tap_timeout (config s)))],
        nextTimer := Suc (nextTimer s), timeout := Some (nextTimer s), lastTouch := Some now\<rparr>"
  using assms by (auto simp add: tapRelease_def Let_def clearTimeout_def setTimeout_def split: option.splits)

lemma tidy_tapRelease:
  assumes "tidy s"
  shows "tidy (tapRelease now s)"
proof (cases "case lastTouch s of None \<Rightarrow> True | Some l \<Rightarrow> tap_timeout (config s) \<le> now - l")
  case True
  show ?thesis
    unfolding tapRelease_single [OF True]
    using assms
    by (rule tidy_cases) (simp_all add: tidy_def clearTimeout_def split: option.split)
next
  case False
  then obtain l where "lastTouch s = Some l" "now - l < tap_timeout (config s)"
    by (auto split: option.splits)
  then show ?thesis
    using assms
    by (simp add: tapRelease_double)
       (erule tidy_cases; simp add: tidy_def clearTimeout_def timers_fireEvent timeout_fireEvent split: option.split)
qed

lemma tidy_handleEnd:
  assumes "tidy s"
  shows "tidy (handleEnd ev now s)"
proof -
  have t2: "tidy (s\<lparr>mouseDown := False, circle := centred\<rparr>)"
    using assms by (rule tidy_eqI) simp_all
  consider "\<not> isTouch ev" | "isTouch ev" "startX s = None \<or> startY s = None"
    | x0 y0 where "isTouch ev" "startX s = Some x0" "startY s = Some y0"
    by (cases "startX s"; cases "startY s") auto
  then show ?thesis
  proof cases
    case 1
    then show ?thesis
      using assms by (simp add: handleEnd_mouse tidy_eqI [of s])
  next
    case 2
    then show ?thesis
      using t2 by (simp add: handleEnd_no_origin)
  next
    case 3
    show ?thesis
      unfolding handleEnd_touch [OF 3 refl refl]
      using t2 assms by (simp add: tidy_fireEvent tidy_tapRelease)
  qed
qed

lemma tidy_deliver: "tidy s \<Longrightarrow> tidy (deliver i t s)"
  by (cases i)
     (simp_all add: tidy_handleStart tidy_handleMove tidy_handleEnd
        connectedCallback_def disconnectedCallback_def tidy_eqI [of s])

lemma tidy_step: "tidy s \<Longrightarrow> tidy (step e s)"
  by (simp add: step_def tidy_deliver tidy_runTimers)

lemma run_Nil: "run [] s = s"
  by (simp add: run_def)

lemma run_Cons: "run (e # es) s = run es (step e s)"
  by (simp add: run_def)

lemma tidy_run: "tidy s \<Longrightarrow> tidy (run es s)"
  by (induction es arbitrary: s) (simp_all add: run_Nil run_Cons tidy_step)

lemma tidy_initial: "tidy (initial cfg)"
  by (simp add: tidy_def initial_def)



lemma handleMove_eq:
  assumes "isTouch ev \<or> mouseDown s" and "startX s = Some x0" and "startY s = Some y0"
  shows "handleMove ev g s =
    s\<lparr>circle := (circle s)
       \<lparr>style_left := Calc50Plus (max (min (clientX ev - x0) (real_of_int (offsetWidth g - circleWidth g) / 2))
                                  (- (real_of_int (offsetWidth g - circleWidth g) / 2))),
        style_top := Calc50Plus (max (min (clientY ev - y0) (real_of_int (offsetHeight g - circleHeight g) / 2))
                                  (- (real_of_int (offsetHeight g - circleHeight g) / 2)))\<rparr>\<rparr>"
  using assms by (auto simp add: handleMove_def Let_def)

lemma handleEnd_circle:
  assumes "isTouch ev"
  shows "handleEnd ev now (s\<lparr>circle := c\<rparr>) = handleEnd ev now s"
  using assms
  by (simp add: handleEnd_def Let_def split del: if_split cong: if_cong option.case_cong)

lemma clamp_cases:
  fixes d m :: real
  assumes "0 \<le> m"
  shows "- m \<le> max (min d m) (- m) \<and> max (min d m) (- m) \<le> m \<and>
         max (min d m) (- m) = (if d < - m then - m else if m < d then m else d)"
  using assms by (auto simp: max_def min_def)

lemma runTimers_keeps:
  assumes "tidy s"
  shows "config (runTimers t s) = config s" and "startX (runTimers t s) = startX s"
    and "startY (runTimers t s) = startY s" and "lastTouch (runTimers t s) = lastTouch s"
    and "connected (runTimers t s) = connected s" and "timeout (runTimers t s) = timeout s"
    and "circle (runTimers t s) = circle s" and "mouseDown (runTimers t s) = mouseDown s"
  using assms by (simp_all add: runTimers_tidy fireEvent_eq split: list.split)

lemma tidy_clear: "tidy s \<Longrightarrow> timers (clearTimeout (timeout s) s) = []"
  by (erule tidy_cases) (simp_all add: clearTimeout_def split: option.split)

lemma config_tapRelease: "config (tapRelease now s) = config s"
  by (simp add: tapRelease_def Let_def setTimeout_def clearTimeout_def fireEvent_eq split: option.split)

lemma connected_tapRelease: "connected (tapRelease now s) = connected s"
  by (simp add: tapRelease_def Let_def setTimeout_def clearTimeout_def fireEvent_eq split: option.split)

lemma handleEnd_keeps:
  "config (handleEnd ev now s) = config s \<and> connected (handleEnd ev now s) = connected s"
proof -
  consider "\<not> isTouch ev" | "isTouch ev" "startX s = None \<or> startY s = None"
    | x0 y0 where "isTouch ev" "startX s = Some x0" "startY s = Some y0"
    by (cases "startX s"; cases "startY s") auto
  then show ?thesis
  proof cases
    case 1
    then show ?thesis
      by (simp add: handleEnd_mouse)
  next
    case 2
    then show ?thesis
      by (simp add: handleEnd_no_origin)
  next
    case 3
    show ?thesis
      unfolding handleEnd_touch [OF 3 refl refl]
      by (simp add: fireEvent_eq config_tapRelease connected_tapRelease)
  qed
qed

lemma config_deliver: "config (deliver i t s) = config s"
  by (cases i)
     (simp_all add: handleStart_def handleMove_def Let_def handleEnd_keeps
        connectedCallback_def disconnectedCallback_def)

lemma config_step: "tidy s \<Longrightarrow> config (step e s) = config s"
  by (simp add: step_def config_deliver runTimers_keeps)

lemma config_run: "tidy s \<Longrightarrow> config (run es s) = config s"
  by (induction es arbitrary: s) (simp_all add: run_Nil run_Cons config_step tidy_step)

lemma reachable:
  assumes "s = run es (initial cfg)"
  shows "tidy s" and "config s = cfg"
  using assms by (simp_all add: tidy_run tidy_initial config_run) (simp add: initial_def)

lemma step_tap:
  assumes "tidy s" and "connected s" and "isTouch ev"
    and "startX s = Some x0" and "startY s = Some y0"
    and "\<bar>clientX ev - x0\<bar> < tap_threshold (config s)" and "\<bar>clientY ev - y0\<bar> < tap_threshold (config s)"
  shows "step (now, PressEnd ev) s =
           tapRelease now ((runTimers now s)\<lparr>mouseDown := False, circle := centred\<rparr>)"
proof -
  let ?r = "runTimers now s"
  have k: "connected ?r" "startX ?r = Some x0" "startY ?r = Some y0" "config ?r = config s"
    using assms by (simp_all add: runTimers_keeps)
  have "handleEnd ev now ?r = tapRelease now (?r\<lparr>mouseDown := False, circle := centred\<rparr>)"
    using assms(6,7) by (simp add: handleEnd_touch [OF assms(3) k(2,3) refl refl] k(4))
  with k(1) show ?thesis
    by (simp add: step_def)
qed

lemma step_single:
  assumes "tidy s" and "connected s" and "isTouch ev"
    and "startX s = Some x0" and "startY s = Some y0"
    and "\<bar>clientX ev - x0\<bar> < tap_threshold (config s)" and "\<bar>clientY ev - y0\<bar> < tap_threshold (config s)"
    and "case lastTouch s of None \<Rightarrow> True | Some l \<Rightarrow> tap_timeout (config s) \<le> now - l"
  shows "step (now, PressEnd ev) s =
    (runTimers now s)
       \<lparr>mouseDown := False, circle := centred,
        timers := [(nextTimer (runTimers now s), now + max 0 (tap_timeout (config s)))],
        nextTimer := Suc (nextTimer (runTimers now s)),
        timeout := Some (nextTimer (runTimers now s)), lastTouch := Some now\<rparr>"
proof -
  let ?r = "runTimers now s"
  let ?s2 = "?r\<lparr>mouseDown := False, circle := centred\<rparr>"
  have t: "tidy ?r"
    using assms(1) by (rule tidy_runTimers)
  have k: "lastTouch ?s2 = lastTouch s" "config ?s2 = config s"
    using assms(1) by (simp_all add: runTimers_keeps)
  have c: "case lastTouch ?s2 of None \<Rightarrow> True | Some l \<Rightarrow> tap_timeout (config ?s2) \<le> now - l"
    unfolding k by (rule assms(8))
  have e: "timers (clearTimeout (timeout ?r) ?r) = []"
    using t by (rule tidy_clear)
  then have e2: "clearTimeout (timeout ?r) ?s2 = ?s2\<lparr>timers := []\<rparr>"
    by (simp add: clearTimeout_def split: option.splits)
  show ?thesis
    unfolding step_tap [OF assms(1-7)] tapRelease_single [OF c]
    using e e2 k(2) by simp
qed

lemma step_double:
  assumes "tidy s" and "connected s" and "isTouch ev"
    and "startX s = Some x0" and "startY s = Some y0"
    and "\<bar>clientX ev - x0\<bar> < tap_threshold (config s)" and "\<bar>clientY ev - y0\<bar> < tap_threshold (config s)"
    and "lastTouch s = Some l" and "now - l < tap_timeout (config s)"
  shows "step (now, PressEnd ev) s =
    (fireEvent ''double_tap'' ((runTimers now s)\<lparr>mouseDown := False, circle := centred, timers := []\<rparr>))
       \<lparr>lastTouch := Some now\<rparr>"
proof -
  let ?r = "runTimers now s"
  let ?s2 = "?r\<lparr>mouseDown := False, circle := centred\<rparr>"
  have t: "tidy ?r"
    using assms(1) by (rule tidy_runTimers)
  have k: "lastTouch ?s2 = Some l" "now - l < tap_timeout (config ?s2)"
    using assms(1,8,9) by (simp_all add: runTimers_keeps)
  have "timers (clearTimeout (timeout ?r) ?r) = []"
    using t by (rule tidy_clear)
  then have e2: "clearTimeout (timeout ?s2) ?s2 = ?s2\<lparr>timers := []\<rparr>"
    by (simp add: clearTimeout_def split: option.splits)
  show ?thesis
    unfolding step_tap [OF assms(1-7)] tapRelease_double [OF k] e2
    by simp
qed

lemma tapLog_fireEvent:
  "tapLog (fireEvent g s) = tapLog s @ (if g = ''tap'' \<or> g = ''double_tap'' then [g] else [])"
  by (simp add: tapLog_def fired_fireEvent)

lemma sameTaps_refl: "sameTaps s s"
  by (simp add: sameTaps_def)

lemma sameTaps_trans: "sameTaps s s' \<Longrightarrow> sameTaps s' s'' \<Longrightarrow> sameTaps s s''"
  by (simp add: sameTaps_def)

lemma sameTaps_swipe:
  assumes "g \<noteq> ''tap''" and "g \<noteq> ''double_tap''"
  shows "sameTaps s (fireEvent g (s\<lparr>mouseDown := False, circle := centred\<rparr>))"
  using assms by (simp add: sameTaps_def tapLog_fireEvent timers_fireEvent timeout_fireEvent)
    (simp add: fireEvent_eq tapLog_def)

lemma sameTaps_handleEnd:
  assumes "\<not> qualifying s (PressEnd ev)" and "connected s"
  shows "sameTaps s (handleEnd ev now s)"
proof -
  consider "\<not> isTouch ev" | "isTouch ev" "startX s = None \<or> startY s = None"
    | x0 y0 where "isTouch ev" "startX s = Some x0" "startY s = Some y0"
    by (cases "startX s"; cases "startY s") auto
  then show ?thesis
  proof cases
    case 1
    then show ?thesis
      by (simp add: handleEnd_mouse sameTaps_def tapLog_def)
  next
    case 2
    then show ?thesis
      by (simp add: handleEnd_no_origin sameTaps_def tapLog_def)
  next
    case 3
    define dx where "dx = \<bar>clientX ev - x0\<bar>"
    define dy where "dy = \<bar>clientY ev - y0\<bar>"
    let ?s2 = "s\<lparr>mouseDown := False, circle := centred\<rparr>"
    from assms 3 have nt: "\<not> (dx < tap_threshold (config s) \<and> dy < tap_threshold (config s))"
      by (simp add: dx_def dy_def)
    have sw: "sameTaps s (fireEvent g ?s2)" if "g \<in> {''right'', ''left'', ''down'', ''up''}" for g
      using that by (intro sameTaps_swipe) auto
    have "sameTaps s ?s2"
      by (simp add: sameTaps_def tapLog_def)
    with nt sw show ?thesis
      unfolding handleEnd_touch [OF 3 dx_def dy_def] by auto
  qed
qed

lemma sameTaps_step:
  assumes "\<not> qualifying s i" and "dueTimer t (timers s) = None"
  shows "sameTaps s (step (t, i) s)"
proof (cases i)
  case (PressEnd ev)
  show ?thesis
  proof (cases "connected s")
    case True
    with assms PressEnd show ?thesis
      by (simp add: step_def runTimers_idle sameTaps_handleEnd)
  next
    case False
    with assms PressEnd show ?thesis
      by (simp add: step_def runTimers_idle sameTaps_refl)
  qed
qed (use assms in \<open>simp_all add: sameTaps_def tapLog_def step_def runTimers_idle handleStart_def
       handleMove_def Let_def connectedCallback_def disconnectedCallback_def\<close>)

lemma sameTaps_run:
  assumes "noTapRelease mid s" and "\<forall>e \<in> set mid. dueTimer (fst e) (timers s) = None"
  shows "sameTaps s (run mid s)"
  using assms
proof (induction mid arbitrary: s)
  case Nil
  show ?case
    by (simp add: run_Nil sameTaps_refl)
next
  case (Cons e mid)
  from Cons.prems have "sameTaps s (step (fst e, snd e) s)"
    by (intro sameTaps_step) simp_all
  then have 1: "sameTaps s (step e s)"
    by simp
  then have "\<forall>e' \<in> set mid. dueTimer (fst e') (timers (step e s)) = None"
    using Cons.prems by (simp add: sameTaps_def)
  moreover have "noTapRelease mid (step e s)"
    using Cons.prems by simp
  ultimately have "sameTaps (step e s) (run mid (step e s))"
    by (intro Cons.IH)
  with 1 show ?case
    by (simp add: run_Cons) (rule sameTaps_trans)
qed

lemma first_tap:
  assumes "tidy s" and "connected s" and "isTouch ev"
    and "startX s = Some x0" and "startY s = Some y0"
    and "\<bar>clientX ev - x0\<bar> < tap_threshold (config s)" and "\<bar>clientY ev - y0\<bar> < tap_threshold (config s)"
    and "s1 = step (now, PressEnd ev) s"
  shows "tidy s1" and "connected s1" and "config s1 = config s" and "lastTouch s1 = Some now"
    and "timers s1 = [] \<or> (\<exists>h. timers s1 = [(h, now + max 0 (tap_timeout (config s)))])"
    and "fired s1 = fired (runTimers now s) @
           (if (case lastTouch s of None \<Rightarrow> False | Some l \<Rightarrow> now - l < tap_timeout (config s))
            then [''double_tap''] else [])"
    and "(case lastTouch s of None \<Rightarrow> True | Some l \<Rightarrow> tap_timeout (config s) \<le> now - l) \<Longrightarrow>
           \<exists>h. timers s1 = [(h, now + max 0 (tap_timeout (config s)))]"
proof -
  show "tidy s1"
    unfolding assms(8) using assms(1) by (rule tidy_step)
  have k: "connected (runTimers now s)" "config (runTimers now s) = config s"
    using assms(1,2) by (simp_all add: runTimers_keeps)
  show "(case lastTouch s of None \<Rightarrow> True | Some l \<Rightarrow> tap_timeout (config s) \<le> now - l) \<Longrightarrow>
           \<exists>h. timers s1 = [(h, now + max 0 (tap_timeout (config s)))]"
    unfolding assms(8) by (simp add: step_single [OF assms(1-7)])
  have main: "connected s1 \<and> config s1 = config s \<and> lastTouch s1 = Some now \<and>
      (timers s1 = [] \<or> (\<exists>h. timers s1 = [(h, now + max 0 (tap_timeout (config s)))])) \<and>
      fired s1 = fired (runTimers now s) @
           (if (case lastTouch s of None \<Rightarrow> False | Some l \<Rightarrow> now - l < tap_timeout (config s))
            then [''double_tap''] else [])"
  proof (cases "case lastTouch s of None \<Rightarrow> True | Some l \<Rightarrow> tap_timeout (config s) \<le> now - l")
    case True
    then have "\<not> (case lastTouch s of None \<Rightarrow> False | Some l \<Rightarrow> now - l < tap_timeout (config s))"
      by (simp split: option.splits)
    then show ?thesis
      unfolding assms(8) using k by (simp add: step_single [OF assms(1-7) True])
  next
    case False
    then obtain l where l: "lastTouch s = Some l" "now - l < tap_timeout (config s)"
      by (auto split: option.splits)
    then show ?thesis
      unfolding assms(8) using k by (simp add: step_double [OF assms(1-7) l] fireEvent_eq)
  qed
  from main show "connected s1" "config s1 = config s" "lastTouch s1 = Some now"
    "timers s1 = [] \<or> (\<exists>h. timers s1 = [(h, now + max 0 (tap_timeout (config s)))])"
    "fired s1 = fired (runTimers now s) @
           (if (case lastTouch s of None \<Rightarrow> False | Some l \<Rightarrow> now - l < tap_timeout (config s))
            then [''double_tap''] else [])"
    by blast+
qed

lemma second_tap:
  assumes "tidy s1" and "lastTouch s1 = Some t1"
    and "timers s1 = [] \<or> (\<exists>h. timers s1 = [(h, t1 + max 0 (tap_timeout (config s1)))])"
    and "\<forall>e \<in> set mid. fst e \<le> t2" and "noTapRelease mid s1"
    and "m = run mid s1" and "connected m"
    and "isTouch ev" and "startX m = Some x0" and "startY m = Some y0"
    and "\<bar>clientX ev - x0\<bar> < tap_threshold (config s1)" and "\<bar>clientY ev - y0\<bar> < tap_threshold (config s1)"
    and "t2 - t1 < tap_timeout (config s1)"
    and "s2 = step (t2, PressEnd ev) m"
  shows "tidy s2" and "connected s2" and "config s2 = config s1" and "lastTouch s2 = Some t2"
    and "timers s2 = []" and "fired s2 = fired m @ [''double_tap'']" and "tapLog m = tapLog s1"
    and "timers m = timers s1"
proof -
  have idle: "dueTimer t (timers s1) = None" if "t \<le> t2" for t
    using assms(3,13) that by (auto simp: dueTimer_def)
  then have "\<forall>e \<in> set mid. dueTimer (fst e) (timers s1) = None"
    using assms(4) by simp
  with assms(5) have same: "sameTaps s1 m"
    unfolding assms(6) by (rule sameTaps_run)
  have tm: "tidy m"
    unfolding assms(6) using assms(1) by (rule tidy_run)
  have km: "config m = config s1" "lastTouch m = Some t1" "timers m = timers s1"
    "tapLog m = tapLog s1"
    using same assms(2) by (simp_all add: sameTaps_def)
  have i2: "runTimers t2 m = m"
    using idle [of t2] by (simp add: runTimers_idle km(3))
  note d = step_double [OF tm assms(7,8,9,10) assms(11,12) [folded km(1)] km(2) assms(13) [folded km(1)]]
  show "tidy s2"
    unfolding assms(14) using tm by (rule tidy_step)
  show "connected s2" "config s2 = config s1" "lastTouch s2 = Some t2" "timers s2 = []"
    "fired s2 = fired m @ [''double_tap'']" "tapLog m = tapLog s1" "timers m = timers s1"
    unfolding assms(14) d i2 using km assms(7) by (simp_all add: fireEvent_eq)
qed

lemma taps_tapLog: "taps s = filter (\<lambda>g. g = ''tap'') (tapLog s)"
  by (simp add: taps_def tapLog_def) (rule filter_cong, auto)

lemma sameTaps_taps: "sameTaps s s' \<Longrightarrow> taps s' = taps s"
  by (simp add: taps_tapLog sameTaps_def)









lemma runTimers_eval:
  assumes "length (timers s) \<le> 1"
  shows "runTimers t s =
           (case timers s of
              [] \<Rightarrow> s
            | p # ps \<Rightarrow> if snd p \<le> t then fireEvent ''tap'' (s\<lparr>timers := []\<rparr>) else s)"
proof (cases "timers s")
  case Nil
  then show ?thesis
    by (simp add: runTimers_empty)
next
  case (Cons p ps)
  with assms have single: "timers s = [(fst p, snd p)]"
    by simp
  show ?thesis
  proof (cases "snd p \<le> t")
    case True
    from runTimers_due [OF single True] show ?thesis
      using True by (simp add: Cons)
  next
    case False
    then have "t < snd p"
      by simp
    from runTimers_early [OF single this] show ?thesis
      using False by (simp add: Cons)
  qed
qed

lemmas eval_simps =
  run_Cons run_Nil step_def runTimers_eval connectedCallback_def disconnectedCallback_def
  handleStart_def handleMove_def handleEnd_def Let_def initial_def exampleConfig_def defaults_def
  fireEvent_eq setTimeout_def clearTimeout_def

section \<open>Properties\<close>

subsection \<open>Emission\<close>

text \<open>
  C7. For every gesture name, \<open>_fireEvent\<close> dispatches no event when no action
  descriptor is configured for the gesture, and nothing of the component changes (only
  the call itself is logged); when a descriptor is configured it dispatches exactly one
  event, whose detail is \<open>{action: "tap", config: {tap_action: descriptor}}\<close> with the
  descriptor as configured.
\<close>

theorem fireEvent_emission:
  "(actions (config s) (g @ ''_action'') = None \<longrightarrow>
      fireEvent g s = s\<lparr>fired := fired s @ [g]\<rparr> \<and>
      dispatched (fireEvent g s) = dispatched s) \<and>
   (\<forall>c. actions (config s) (g @ ''_action'') = Some c \<longrightarrow>
      fireEvent g s =
        s\<lparr>fired := fired s @ [g],
          dispatched := dispatched s @
            [\<lparr>event_type = ''hass-action'', bubbles = True, composed = True,
              detail_action = ''tap'', detail_tap_action = c\<rparr>]\<rparr>)"
  by (simp add: fireEvent_def Let_def)

theorem fireEvent_emission_witness:
  "actions (config (initial exampleConfig)) (''up'' @ ''_action'') = None \<and>
   dispatched (fireEvent ''up'' (initial exampleConfig)) = [] \<and>
   actions (config (initial exampleConfig)) (''tap'' @ ''_action'') = Some 1 \<and>
   dispatched (fireEvent ''tap'' (initial exampleConfig)) =
     [\<lparr>event_type = ''hass-action'', bubbles = True, composed = True,
       detail_action = ''tap'', detail_tap_action = 1\<rparr>]"
  using fireEvent_emission [of "initial exampleConfig" "''up''"]
    fireEvent_emission [of "initial exampleConfig" "''tap''"]
  by (simp add: initial_def exampleConfig_def defaults_def)

subsection \<open>The mouse path of \<open>_handleEnd\<close>\<close>

text \<open>
  C10. For a release that is not a touch event, \<open>_handleEnd\<close> clears
  \<open>_mouseDown\<close> and then evaluates the guard, which therefore holds: the handler
  returns with only the flag changed. No gesture is fired, no event dispatched, no timer
  touched, the circle keeps its style, and the result does not depend on the
  configuration (the thresholds are not read). This holds also when the button was held,
  that is, whatever \<open>_mouseDown\<close> was before.
\<close>

theorem mouse_release_ignored:
  assumes "\<not> isTouch ev"
  shows "handleEnd ev now s = s\<lparr>mouseDown := False\<rparr> \<and>
         fired (handleEnd ev now s) = fired s \<and>
         dispatched (handleEnd ev now s) = dispatched s \<and>
         timers (handleEnd ev now s) = timers s \<and>
         lastTouch (handleEnd ev now s) = lastTouch s \<and>
         circle (handleEnd ev now s) = circle s \<and>
         (\<forall>c. handleEnd ev now (s\<lparr>config := c\<rparr>) = (handleEnd ev now s)\<lparr>config := c\<rparr>)"
  using assms by (simp add: handleEnd_mouse)

theorem mouse_release_ignored_witness:
  "\<not> isTouch \<lparr>isTouch = False, clientX = 160, clientY = 100\<rparr> \<and>
   mouseDown (handleStart \<lparr>isTouch = False, clientX = 100, clientY = 100\<rparr>
      (initial exampleConfig)) \<and>
   handleEnd \<lparr>isTouch = False, clientX = 160, clientY = 100\<rparr> 0
     (handleStart \<lparr>isTouch = False, clientX = 100, clientY = 100\<rparr>
        (initial exampleConfig)) =
   (handleStart \<lparr>isTouch = False, clientX = 100, clientY = 100\<rparr>
        (initial exampleConfig))\<lparr>mouseDown := False\<rparr>"
  using mouse_release_ignored [of "\<lparr>isTouch = False, clientX = 160, clientY = 100\<rparr>" 0
     "handleStart \<lparr>isTouch = False, clientX = 100, clientY = 100\<rparr>
        (initial exampleConfig)"]
  by (simp add: handleStart_def)

subsection \<open>Classification of a release\<close>



text \<open>
  C4. A release outside the tap region that satisfies neither swipe condition, in
  particular one with \<open>deltaX = deltaY\<close> and one whose larger displacement does not
  exceed \<open>swipe_threshold\<close>, fires no gesture, dispatches no event and leaves the
  timers and \<open>_lastTouch\<close> alone.
\<close>

theorem dead_zone_release:
  assumes "startX s = Some x0" and "startY s = Some y0"
    and "\<not> (\<bar>clientX ev - x0\<bar> < tap_threshold (config s) \<and> \<bar>clientY ev - y0\<bar> < tap_threshold (config s))"
    and "\<bar>clientX ev - x0\<bar> = \<bar>clientY ev - y0\<bar> \<or>
         (\<bar>clientX ev - x0\<bar> \<le> swipe_threshold (config s) \<and> \<bar>clientY ev - y0\<bar> \<le> swipe_threshold (config s)) \<or>
         (\<not> (\<bar>clientX ev - x0\<bar> > \<bar>clientY ev - y0\<bar> \<and> \<bar>clientX ev - x0\<bar> > swipe_threshold (config s)) \<and>
          \<not> (\<bar>clientY ev - y0\<bar> > \<bar>clientX ev - x0\<bar> \<and> \<bar>clientY ev - y0\<bar> > swipe_threshold (config s)))"
  shows "fired (handleEnd ev now s) = fired s \<and>
         dispatched (handleEnd ev now s) = dispatched s \<and>
         timers (handleEnd ev now s) = timers s \<and>
         lastTouch (handleEnd ev now s) = lastTouch s \<and>
         handleEnd ev now s =
           (if isTouch ev then s\<lparr>mouseDown := False, circle := centred\<rparr> else s\<lparr>mouseDown := False\<rparr>)"
proof (cases "isTouch ev")
  case False
  then show ?thesis
    by (simp add: handleEnd_mouse)
next
  case True
  define dx where "dx = \<bar>clientX ev - x0\<bar>"
  define dy where "dy = \<bar>clientY ev - y0\<bar>"
  note h = handleEnd_touch [OF True assms(1,2) dx_def dy_def, of now]
  from assms(3) have nt: "\<not> (dx < tap_threshold (config s) \<and> dy < tap_threshold (config s))"
    by (simp add: dx_def dy_def)
  from assms(4) have "dx = dy \<or> (dx \<le> swipe_threshold (config s) \<and> dy \<le> swipe_threshold (config s)) \<or>
      (\<not> (dx > dy \<and> dx > swipe_threshold (config s)) \<and> \<not> (dy > dx \<and> dy > swipe_threshold (config s)))"
    by (simp add: dx_def dy_def)
  then have ns: "\<not> (dx > dy \<and> dx > swipe_threshold (config s))" "\<not> (dy > dx \<and> dy > swipe_threshold (config s))"
    by auto
  have "handleEnd ev now s = s\<lparr>mouseDown := False, circle := centred\<rparr>"
    using nt ns by (auto simp add: h)
  with True show ?thesis
    by simp
qed

theorem dead_zone_release_witness:
  "startX (handleStart \<lparr>isTouch = True, clientX = 100, clientY = 100\<rparr>
     (initial exampleConfig)) = Some 100 \<and>
   startY (handleStart \<lparr>isTouch = True, clientX = 100, clientY = 100\<rparr>
     (initial exampleConfig)) = Some 100 \<and>
   \<bar>(160::real) - 100\<bar> = \<bar>160 - 100\<bar> \<and> \<not> \<bar>(160::real) - 100\<bar> < 5 \<and>
   fired (handleEnd \<lparr>isTouch = True, clientX = 160, clientY = 160\<rparr> 0
     (handleStart \<lparr>isTouch = True, clientX = 100, clientY = 100\<rparr>
       (initial exampleConfig))) = [] \<and>
   \<bar>(130::real) - 100\<bar> \<le> 50 \<and> \<bar>(90::real) - 100\<bar> \<le> 50 \<and> \<not> \<bar>(130::real) - 100\<bar> < 5 \<and>
   fired (handleEnd \<lparr>isTouch = True, clientX = 130, clientY = 90\<rparr> 0
     (handleStart \<lparr>isTouch = True, clientX = 100, clientY = 100\<rparr>
       (initial exampleConfig))) = []"
  using
    dead_zone_release [of "handleStart \<lparr>isTouch = True, clientX = 100, clientY = 100\<rparr>
        (initial exampleConfig)" 100 100
        "\<lparr>isTouch = True, clientX = 160, clientY = 160\<rparr>" 0]
    dead_zone_release [of "handleStart \<lparr>isTouch = True, clientX = 100, clientY = 100\<rparr>
        (initial exampleConfig)" 100 100
        "\<lparr>isTouch = True, clientX = 130, clientY = 90\<rparr>" 0]
  by (simp add: handleStart_def initial_def exampleConfig_def defaults_def fired_fireEvent)

subsection \<open>The cursor\<close>

text \<open>
  C5, as amended. For a pointer move that is processed, on an axis on which the
  circle is not larger than the container, the offset written to the circle is the raw
  displacement from the origin clamped to \<open>[-(W-w)/2, (W-w)/2]\<close> (respectively
  \<open>[-(H-h)/2, (H-h)/2]\<close>), however large the displacement; each axis on its own. The
  move changes neither \<open>_startX\<close> nor \<open>_startY\<close>, and a touch release after the move
  gives the state it gives without the move.
\<close>

theorem cursor_clamped:
  assumes "isTouch ev \<or> mouseDown s" and "startX s = Some x0" and "startY s = Some y0"
  shows "(circleWidth g \<le> offsetWidth g \<longrightarrow>
            (let m = real_of_int (offsetWidth g - circleWidth g) / 2;
                 d = clientX ev - x0;
                 l = offset (style_left (circle (handleMove ev g s)))
             in - m \<le> l \<and> l \<le> m \<and> l = (if d < - m then - m else if m < d then m else d))) \<and>
         (circleHeight g \<le> offsetHeight g \<longrightarrow>
            (let m = real_of_int (offsetHeight g - circleHeight g) / 2;
                 d = clientY ev - y0;
                 t = offset (style_top (circle (handleMove ev g s)))
             in - m \<le> t \<and> t \<le> m \<and> t = (if d < - m then - m else if m < d then m else d))) \<and>
         startX (handleMove ev g s) = startX s \<and>
         startY (handleMove ev g s) = startY s \<and>
         (\<forall>ev' now. isTouch ev' \<longrightarrow> handleEnd ev' now (handleMove ev g s) = handleEnd ev' now s)"
proof -
  note mv = handleMove_eq [OF assms, of g]
  have x: "circleWidth g \<le> offsetWidth g \<longrightarrow>
            (let m = real_of_int (offsetWidth g - circleWidth g) / 2;
                 d = clientX ev - x0;
                 l = offset (style_left (circle (handleMove ev g s)))
             in - m \<le> l \<and> l \<le> m \<and> l = (if d < - m then - m else if m < d then m else d))"
  proof
    define m where "m = real_of_int (offsetWidth g - circleWidth g) / 2"
    assume "circleWidth g \<le> offsetWidth g"
    then have "0 \<le> m"
      by (simp add: m_def)
    moreover have l: "offset (style_left (circle (handleMove ev g s))) = max (min (clientX ev - x0) m) (- m)"
      unfolding mv m_def by simp
    ultimately show "let m = real_of_int (offsetWidth g - circleWidth g) / 2;
                 d = clientX ev - x0;
                 l = offset (style_left (circle (handleMove ev g s)))
             in - m \<le> l \<and> l \<le> m \<and> l = (if d < - m then - m else if m < d then m else d)"
      unfolding Let_def m_def [symmetric] l using clamp_cases [of m "clientX ev - x0"]
      by blast
  qed
  have y: "circleHeight g \<le> offsetHeight g \<longrightarrow>
            (let m = real_of_int (offsetHeight g - circleHeight g) / 2;
                 d = clientY ev - y0;
                 t = offset (style_top (circle (handleMove ev g s)))
             in - m \<le> t \<and> t \<le> m \<and> t = (if d < - m then - m else if m < d then m else d))"
  proof
    define m where "m = real_of_int (offsetHeight g - circleHeight g) / 2"
    assume "circleHeight g \<le> offsetHeight g"
    then have "0 \<le> m"
      by (simp add: m_def)
    moreover have l: "offset (style_top (circle (handleMove ev g s))) = max (min (clientY ev - y0) m) (- m)"
      unfolding mv m_def by simp
    ultimately show "let m = real_of_int (offsetHeight g - circleHeight g) / 2;
                 d = clientY ev - y0;
                 t = offset (style_top (circle (handleMove ev g s)))
             in - m \<le> t \<and> t \<le> m \<and> t = (if d < - m then - m else if m < d then m else d)"
      unfolding Let_def m_def [symmetric] l using clamp_cases [of m "clientY ev - y0"]
      by blast
  qed
  have o: "startX (handleMove ev g s) = startX s" "startY (handleMove ev g s) = startY s"
    unfolding mv by simp_all
  have e: "\<forall>ev' now. isTouch ev' \<longrightarrow> handleEnd ev' now (handleMove ev g s) = handleEnd ev' now s"
    unfolding mv by (simp add: handleEnd_circle)
  from x y o e show ?thesis
    by blast
qed

theorem cursor_clamped_witness:
  "(isTouch \<lparr>isTouch = True, clientX = 500, clientY = 90\<rparr> \<or>
      mouseDown (handleStart \<lparr>isTouch = True, clientX = 100, clientY = 100\<rparr>
        (initial exampleConfig))) \<and>
   circleWidth \<lparr>offsetWidth = 200, offsetHeight = 200, circleWidth = 40, circleHeight = 40\<rparr>
     \<le> offsetWidth \<lparr>offsetWidth = 200, offsetHeight = 200, circleWidth = 40, circleHeight = 40\<rparr> \<and>
   circle (handleMove \<lparr>isTouch = True, clientX = 500, clientY = 90\<rparr>
      \<lparr>offsetWidth = 200, offsetHeight = 200, circleWidth = 40, circleHeight = 40\<rparr>
      (handleStart \<lparr>isTouch = True, clientX = 100, clientY = 100\<rparr>
        (initial exampleConfig))) =
     \<lparr>style_transition = ''none'', style_left = Calc50Plus 80, style_top = Calc50Plus (- 10)\<rparr> \<and>
   fired (handleEnd \<lparr>isTouch = True, clientX = 500, clientY = 90\<rparr> 0
     (handleMove \<lparr>isTouch = True, clientX = 500, clientY = 90\<rparr>
      \<lparr>offsetWidth = 200, offsetHeight = 200, circleWidth = 40, circleHeight = 40\<rparr>
      (handleStart \<lparr>isTouch = True, clientX = 100, clientY = 100\<rparr>
        (initial exampleConfig)))) =
   fired (handleEnd \<lparr>isTouch = True, clientX = 500, clientY = 90\<rparr> 0
      (handleStart \<lparr>isTouch = True, clientX = 100, clientY = 100\<rparr>
        (initial exampleConfig)))"
  using cursor_clamped [of "\<lparr>isTouch = True, clientX = 500, clientY = 90\<rparr>"
      "handleStart \<lparr>isTouch = True, clientX = 100, clientY = 100\<rparr>
        (initial exampleConfig)" 100 100
      "\<lparr>offsetWidth = 200, offsetHeight = 200, circleWidth = 40, circleHeight = 40\<rparr>"]
  by (simp add: handleStart_def handleMove_def initial_def exampleConfig_def defaults_def Let_def)

text \<open>
  C5 as stated fails where the circle is larger than the container: with a container of
  width 30 and a circle of width 40 the bound \<open>(W-w)/2\<close> is \<open>-5\<close>, and a move with no
  displacement sets the offset 5, above the upper end of the interval.
\<close>

theorem cursor_outside_interval:
  "offset (style_left (circle (handleMove \<lparr>isTouch = True, clientX = 100, clientY = 100\<rparr>
      \<lparr>offsetWidth = 30, offsetHeight = 30, circleWidth = 40, circleHeight = 40\<rparr>
      (handleStart \<lparr>isTouch = True, clientX = 100, clientY = 100\<rparr>
        (initial exampleConfig))))) = 5 \<and>
   \<not> (offset (style_left (circle (handleMove \<lparr>isTouch = True, clientX = 100, clientY = 100\<rparr>
      \<lparr>offsetWidth = 30, offsetHeight = 30, circleWidth = 40, circleHeight = 40\<rparr>
      (handleStart \<lparr>isTouch = True, clientX = 100, clientY = 100\<rparr>
        (initial exampleConfig)))))
      \<le> real_of_int (offsetWidth \<lparr>offsetWidth = 30, offsetHeight = 30, circleWidth = 40, circleHeight = 40\<rparr>
            - circleWidth \<lparr>offsetWidth = 30, offsetHeight = 30, circleWidth = 40, circleHeight = 40\<rparr>) / 2)"
  by (simp add: handleStart_def handleMove_def initial_def exampleConfig_def defaults_def Let_def)

text \<open>
  C6. Every release resets the circle to the centre and turns the transition on again.
  The code does so for a touch release only. After a mouse press and a mouse move of 30
  pixels the mouse release leaves the circle 30 pixels off the centre with the transition
  off; the same three events from a touch source leave it centred.
\<close>

theorem mouse_release_keeps_cursor:
  "circle (run [(0, Connect),
                (0, PressStart \<lparr>isTouch = False, clientX = 100, clientY = 100\<rparr>),
                (10, PointerMove \<lparr>isTouch = False, clientX = 130, clientY = 100\<rparr>
                       \<lparr>offsetWidth = 200, offsetHeight = 200, circleWidth = 40, circleHeight = 40\<rparr>),
                (20, PressEnd \<lparr>isTouch = False, clientX = 130, clientY = 100\<rparr>)]
             (initial exampleConfig)) =
     \<lparr>style_transition = ''none'', style_left = Calc50Plus 30, style_top = Calc50Plus 0\<rparr> \<and>
   circle (run [(0, Connect),
                (0, PressStart \<lparr>isTouch = True, clientX = 100, clientY = 100\<rparr>),
                (10, PointerMove \<lparr>isTouch = True, clientX = 130, clientY = 100\<rparr>
                       \<lparr>offsetWidth = 200, offsetHeight = 200, circleWidth = 40, circleHeight = 40\<rparr>),
                (20, PressEnd \<lparr>isTouch = True, clientX = 130, clientY = 100\<rparr>)]
             (initial exampleConfig)) = centred"
  by (simp add: run_Cons run_Nil step_def runTimers_empty connectedCallback_def
        handleStart_def handleMove_def handleEnd_def initial_def exampleConfig_def defaults_def centred_def Let_def)

subsection \<open>Taps and double taps\<close>

text \<open>
  C1, as amended. A touch release inside the tap region, with no qualifying tap in the
  \<open>tap_timeout\<close> milliseconds before it, fires nothing when it is handled and leaves
  one timer, due \<open>tap_timeout\<close> milliseconds later (at once if \<open>tap_timeout\<close> is
  negative). Whatever inputs follow before the timer is due, as long as none of them is
  a qualifying tap release, no \<open>tap\<close> is fired before the due time, and when the event
  loop reaches the due time exactly one \<open>tap\<close> is fired (and dispatched, if an action
  is configured); the timer is gone and nothing fires again.
\<close>

theorem release_defers_tap:
  assumes "s = run es (initial cfg)" and "connected s" and "isTouch ev"
    and "startX s = Some x0" and "startY s = Some y0"
    and "\<bar>clientX ev - x0\<bar> < tap_threshold cfg" and "\<bar>clientY ev - y0\<bar> < tap_threshold cfg"
    and "case lastTouch s of None \<Rightarrow> True | Some l \<Rightarrow> tap_timeout cfg \<le> now - l"
    and "s' = step (now, PressEnd ev) s"
    and "\<forall>e \<in> set mid. fst e < now + max 0 (tap_timeout cfg)" and "noTapRelease mid s'"
    and "m = run mid s'"
  shows "fired s' = fired (runTimers now s) \<and>
         dispatched s' = dispatched (runTimers now s) \<and>
         (\<exists>h. timers s' = [(h, now + max 0 (tap_timeout cfg))]) \<and>
         taps m = taps s' \<and>
         (\<forall>t. t < now + max 0 (tap_timeout cfg) \<longrightarrow> runTimers t m = m) \<and>
         (\<forall>t. now + max 0 (tap_timeout cfg) \<le> t \<longrightarrow>
            fired (runTimers t m) = fired m @ [''tap''] \<and>
            dispatched (runTimers t m) = dispatched m @
              (case actions cfg ''tap_action'' of
                 None \<Rightarrow> []
               | Some c \<Rightarrow> [\<lparr>event_type = ''hass-action'', bubbles = True, composed = True,
                             detail_action = ''tap'', detail_tap_action = c\<rparr>]) \<and>
            timers (runTimers t m) = [] \<and>
            (\<forall>u. runTimers u (runTimers t m) = runTimers t m))"
proof -
  have t: "tidy s" and c: "config s = cfg"
    using reachable [OF assms(1)] by simp_all
  let ?due = "now + max 0 (tap_timeout cfg)"
  let ?h = "nextTimer (runTimers now s)"
  have eq: "s' = (runTimers now s)
       \<lparr>mouseDown := False, circle := centred, timers := [(?h, ?due)],
        nextTimer := Suc ?h, timeout := Some ?h, lastTouch := Some now\<rparr>"
    unfolding assms(9)
    using step_single [OF t assms(2-5) assms(6-8) [folded c]] c by simp
  have ts': "timers s' = [(?h, ?due)]" and cs': "config s' = cfg"
    unfolding eq using t c by (simp_all add: runTimers_keeps)
  have "\<forall>e \<in> set mid. dueTimer (fst e) (timers s') = None"
    using assms(10) by (auto simp add: ts' dueTimer_def)
  with assms(11) have same: "sameTaps s' m"
    unfolding assms(12) by (rule sameTaps_run)
  then have tm: "timers m = [(?h, ?due)]" and cm: "config m = cfg" and "taps m = taps s'"
    using ts' cs' by (simp_all add: sameTaps_def sameTaps_taps)
  have early: "runTimers u m = m" if "u < ?due" for u
    using tm that by (rule runTimers_early)
  have late: "runTimers u m = fireEvent ''tap'' (m\<lparr>timers := []\<rparr>)" if "?due \<le> u" for u
    using tm that by (rule runTimers_due)
  have "runTimers v (fireEvent ''tap'' (m\<lparr>timers := []\<rparr>)) = fireEvent ''tap'' (m\<lparr>timers := []\<rparr>)" for v
    by (rule runTimers_empty) (simp add: timers_fireEvent)
  then have "fired (runTimers u m) = fired m @ [''tap''] \<and>
            dispatched (runTimers u m) = dispatched m @
              (case actions cfg ''tap_action'' of
                 None \<Rightarrow> []
               | Some c \<Rightarrow> [\<lparr>event_type = ''hass-action'', bubbles = True, composed = True,
                             detail_action = ''tap'', detail_tap_action = c\<rparr>]) \<and>
            timers (runTimers u m) = [] \<and>
            (\<forall>v. runTimers v (runTimers u m) = runTimers u m)" if "?due \<le> u" for u
    unfolding late [OF that] using cm by (simp add: fireEvent_eq)
  moreover have "fired s' = fired (runTimers now s)" "dispatched s' = dispatched (runTimers now s)"
    unfolding eq by simp_all
  ultimately show ?thesis
    using ts' early \<open>taps m = taps s'\<close> by blast
qed

theorem release_defers_tap_witness:
  "connected (run [(0, Connect), (0, PressStart \<lparr>isTouch = True, clientX = 100, clientY = 100\<rparr>)]
      (initial exampleConfig)) \<and>
   startX (run [(0, Connect), (0, PressStart \<lparr>isTouch = True, clientX = 100, clientY = 100\<rparr>)]
      (initial exampleConfig)) = Some 100 \<and>
   lastTouch (run [(0, Connect), (0, PressStart \<lparr>isTouch = True, clientX = 100, clientY = 100\<rparr>)]
      (initial exampleConfig)) = None \<and>
   (100::int) < 0 + max 0 (tap_timeout exampleConfig) \<and>
   (150::int) < 0 + max 0 (tap_timeout exampleConfig) \<and>
   noTapRelease [(100, PressStart \<lparr>isTouch = True, clientX = 100, clientY = 100\<rparr>),
                 (150, PressEnd \<lparr>isTouch = True, clientX = 160, clientY = 100\<rparr>)]
     (step (0, PressEnd \<lparr>isTouch = True, clientX = 100, clientY = 100\<rparr>)
       (run [(0, Connect), (0, PressStart \<lparr>isTouch = True, clientX = 100, clientY = 100\<rparr>)]
          (initial exampleConfig))) \<and>
   fired (step (0, PressEnd \<lparr>isTouch = True, clientX = 100, clientY = 100\<rparr>)
     (run [(0, Connect), (0, PressStart \<lparr>isTouch = True, clientX = 100, clientY = 100\<rparr>)]
        (initial exampleConfig))) = [] \<and>
   fired (runTimers 199
     (run [(100, PressStart \<lparr>isTouch = True, clientX = 100, clientY = 100\<rparr>),
           (150, PressEnd \<lparr>isTouch = True, clientX = 160, clientY = 100\<rparr>)]
       (step (0, PressEnd \<lparr>isTouch = True, clientX = 100, clientY = 100\<rparr>)
         (run [(0, Connect), (0, PressStart \<lparr>isTouch = True, clientX = 100, clientY = 100\<rparr>)]
            (initial exampleConfig))))) = [''right''] \<and>
   fired (runTimers 200
     (run [(100, PressStart \<lparr>isTouch = True, clientX = 100, clientY = 100\<rparr>),
           (150, PressEnd \<lparr>isTouch = True, clientX = 160, clientY = 100\<rparr>)]
       (step (0, PressEnd \<lparr>isTouch = True, clientX = 100, clientY = 100\<rparr>)
         (run [(0, Connect), (0, PressStart \<lparr>isTouch = True, clientX = 100, clientY = 100\<rparr>)]
            (initial exampleConfig))))) = [''right'', ''tap'']"
  using release_defers_tap [of
      "run [(0, Connect), (0, PressStart \<lparr>isTouch = True, clientX = 100, clientY = 100\<rparr>)]
        (initial exampleConfig)"
      "[(0, Connect), (0, PressStart \<lparr>isTouch = True, clientX = 100, clientY = 100\<rparr>)]"
      exampleConfig "\<lparr>isTouch = True, clientX = 100, clientY = 100\<rparr>" 100 100 0
      "step (0, PressEnd \<lparr>isTouch = True, clientX = 100, clientY = 100\<rparr>)
        (run [(0, Connect), (0, PressStart \<lparr>isTouch = True, clientX = 100, clientY = 100\<rparr>)]
          (initial exampleConfig))"
      "[(100, PressStart \<lparr>isTouch = True, clientX = 100, clientY = 100\<rparr>),
        (150, PressEnd \<lparr>isTouch = True, clientX = 160, clientY = 100\<rparr>)]"
      "run [(100, PressStart \<lparr>isTouch = True, clientX = 100, clientY = 100\<rparr>),
           (150, PressEnd \<lparr>isTouch = True, clientX = 160, clientY = 100\<rparr>)]
       (step (0, PressEnd \<lparr>isTouch = True, clientX = 100, clientY = 100\<rparr>)
         (run [(0, Connect), (0, PressStart \<lparr>isTouch = True, clientX = 100, clientY = 100\<rparr>)]
            (initial exampleConfig)))"]
  by (simp add: eval_simps)

text \<open>
  C1 as stated fails when a second qualifying release follows within \<open>tap_timeout\<close>:
  the first release of the run below has no tap before it, yet no \<open>tap\<close> is ever
  fired, since the second release clears the timer.
\<close>

theorem tap_cancelled_by_second_release:
  "lastTouch (run [(0, Connect), (0, PressStart \<lparr>isTouch = True, clientX = 100, clientY = 100\<rparr>)]
      (initial exampleConfig)) = None \<and>
   fired (runTimers 1000
     (run [(0, Connect),
           (0, PressStart \<lparr>isTouch = True, clientX = 100, clientY = 100\<rparr>),
           (0, PressEnd \<lparr>isTouch = True, clientX = 100, clientY = 100\<rparr>),
           (40, PressStart \<lparr>isTouch = True, clientX = 100, clientY = 100\<rparr>),
           (50, PressEnd \<lparr>isTouch = True, clientX = 100, clientY = 103\<rparr>)]
        (initial exampleConfig))) = [''double_tap'']"
  by (simp add: eval_simps)



text \<open>
  C9. Every release that takes the tap branch sets \<open>_lastTouch\<close> to the current
  time, on the double-tap branch as on the deferred branch. Hence, of three qualifying
  releases each less than \<open>tap_timeout\<close> after the one before (and no other qualifying
  release between them), the second and the third each fire \<open>double_tap\<close> at once, no
  \<open>tap\<close> is fired and no timer is left.
\<close>

theorem tap_chain:
  assumes "s = run es (initial cfg)" and "connected s"
    and "isTouch r1" and "startX s = Some x1" and "startY s = Some y1"
    and "\<bar>clientX r1 - x1\<bar> < tap_threshold cfg" and "\<bar>clientY r1 - y1\<bar> < tap_threshold cfg"
    and "s1 = step (t1, PressEnd r1) s"
    and "\<forall>e \<in> set mid1. fst e \<le> t2" and "noTapRelease mid1 s1"
    and "m1 = run mid1 s1" and "connected m1"
    and "isTouch r2" and "startX m1 = Some x2" and "startY m1 = Some y2"
    and "\<bar>clientX r2 - x2\<bar> < tap_threshold cfg" and "\<bar>clientY r2 - y2\<bar> < tap_threshold cfg"
    and "t1 \<le> t2" and "t2 - t1 < tap_timeout cfg"
    and "s2 = step (t2, PressEnd r2) m1"
    and "\<forall>e \<in> set mid2. fst e \<le> t3" and "noTapRelease mid2 s2"
    and "m2 = run mid2 s2" and "connected m2"
    and "isTouch r3" and "startX m2 = Some x3" and "startY m2 = Some y3"
    and "\<bar>clientX r3 - x3\<bar> < tap_threshold cfg" and "\<bar>clientY r3 - y3\<bar> < tap_threshold cfg"
    and "t2 \<le> t3" and "t3 - t2 < tap_timeout cfg"
    and "s3 = step (t3, PressEnd r3) m2"
  shows "lastTouch s1 = Some t1 \<and> lastTouch s2 = Some t2 \<and> lastTouch s3 = Some t3 \<and>
         fired s2 = fired m1 @ [''double_tap''] \<and>
         fired s3 = fired m2 @ [''double_tap''] \<and>
         tapLog s3 = tapLog (runTimers t1 s) @
           (if (case lastTouch s of None \<Rightarrow> False | Some l \<Rightarrow> t1 - l < tap_timeout cfg)
            then [''double_tap''] else []) @ [''double_tap'', ''double_tap''] \<and>
         timers s3 = [] \<and>
         (\<forall>t. runTimers t s3 = s3)"
proof -
  have t: "tidy s" and c: "config s = cfg"
    using reachable [OF assms(1)] by simp_all
  note f = first_tap [OF t assms(2-5) assms(6,7) [folded c] assms(8)]
  note g = second_tap [OF f(1,4) f(5) [folded f(3)] assms(9-15)
      assms(16,17,19) [folded c, folded f(3)] assms(20)]
  have c2: "config s2 = cfg"
    using g(3) f(3) c by simp
  have e: "timers s2 = [] \<or> (\<exists>h. timers s2 = [(h, t2 + max 0 (tap_timeout (config s2)))])"
    using g(5) by simp
  note g' = second_tap [OF g(1,4) e assms(21-27) assms(28,29,31) [folded c2] assms(32)]
  have "runTimers u s3 = s3" for u
    using g'(5) by (rule runTimers_empty)
  moreover have "tapLog s1 = tapLog (runTimers t1 s) @
           (if (case lastTouch s of None \<Rightarrow> False | Some l \<Rightarrow> t1 - l < tap_timeout cfg)
            then [''double_tap''] else [])"
    using f(6) [unfolded c] by (simp add: tapLog_def)
  moreover have "tapLog s2 = tapLog m1 @ [''double_tap'']" "tapLog s3 = tapLog m2 @ [''double_tap'']"
    using g(6) g'(6) by (simp_all add: tapLog_def)
  ultimately show ?thesis
    using f(4) g(4) g'(4) g(6,7) g'(6,7) g'(5) by simp
qed

theorem tap_chain_witness:
  "(40::int) \<le> 50 \<and> (90::int) \<le> 100 \<and>
   (50::int) - 0 < tap_timeout exampleConfig \<and> (100::int) - 50 < tap_timeout exampleConfig \<and>
   lastTouch (step (100, PressEnd \<lparr>isTouch = True, clientX = 100, clientY = 100\<rparr>)
     (run [(90, PressStart \<lparr>isTouch = True, clientX = 100, clientY = 100\<rparr>)]
       (step (50, PressEnd \<lparr>isTouch = True, clientX = 100, clientY = 100\<rparr>)
         (run [(40, PressStart \<lparr>isTouch = True, clientX = 100, clientY = 100\<rparr>)]
           (step (0, PressEnd \<lparr>isTouch = True, clientX = 100, clientY = 100\<rparr>)
             (run [(0, Connect), (0, PressStart \<lparr>isTouch = True, clientX = 100, clientY = 100\<rparr>)]
                (initial exampleConfig))))))) = Some 100 \<and>
   fired (step (100, PressEnd \<lparr>isTouch = True, clientX = 100, clientY = 100\<rparr>)
     (run [(90, PressStart \<lparr>isTouch = True, clientX = 100, clientY = 100\<rparr>)]
       (step (50, PressEnd \<lparr>isTouch = True, clientX = 100, clientY = 100\<rparr>)
         (run [(40, PressStart \<lparr>isTouch = True, clientX = 100, clientY = 100\<rparr>)]
           (step (0, PressEnd \<lparr>isTouch = True, clientX = 100, clientY = 100\<rparr>)
             (run [(0, Connect), (0, PressStart \<lparr>isTouch = True, clientX = 100, clientY = 100\<rparr>)]
                (initial exampleConfig))))))) = [''double_tap'', ''double_tap'']"
  using tap_chain [of
      "run [(0, Connect), (0, PressStart \<lparr>isTouch = True, clientX = 100, clientY = 100\<rparr>)]
        (initial exampleConfig)"
      "[(0, Connect), (0, PressStart \<lparr>isTouch = True, clientX = 100, clientY = 100\<rparr>)]"
      exampleConfig "\<lparr>isTouch = True, clientX = 100, clientY = 100\<rparr>" 100 100
      "step (0, PressEnd \<lparr>isTouch = True, clientX = 100, clientY = 100\<rparr>)
             (run [(0, Connect), (0, PressStart \<lparr>isTouch = True, clientX = 100, clientY = 100\<rparr>)]
                (initial exampleConfig))"
      0
      "[(40, PressStart \<lparr>isTouch = True, clientX = 100, clientY = 100\<rparr>)]"
      50
      "run [(40, PressStart \<lparr>isTouch = True, clientX = 100, clientY = 100\<rparr>)]
           (step (0, PressEnd \<lparr>isTouch = True, clientX = 100, clientY = 100\<rparr>)
             (run [(0, Connect), (0, PressStart \<lparr>isTouch = True, clientX = 100, clientY = 100\<rparr>)]
                (initial exampleConfig)))"
      "\<lparr>isTouch = True, clientX = 100, clientY = 100\<rparr>" 100 100
      "step (50, PressEnd \<lparr>isTouch = True, clientX = 100, clientY = 100\<rparr>)
         (run [(40, PressStart \<lparr>isTouch = True, clientX = 100, clientY = 100\<rparr>)]
           (step (0, PressEnd \<lparr>isTouch = True, clientX = 100, clientY = 100\<rparr>)
             (run [(0, Connect), (0, PressStart \<lparr>isTouch = True, clientX = 100, clientY = 100\<rparr>)]
                (initial exampleConfig))))"
      "[(90, PressStart \<lparr>isTouch = True, clientX = 100, clientY = 100\<rparr>)]"
      100
      "run [(90, PressStart \<lparr>isTouch = True, clientX = 100, clientY = 100\<rparr>)]
       (step (50, PressEnd \<lparr>isTouch = True, clientX = 100, clientY = 100\<rparr>)
         (run [(40, PressStart \<lparr>isTouch = True, clientX = 100, clientY = 100\<rparr>)]
           (step (0, PressEnd \<lparr>isTouch = True, clientX = 100, clientY = 100\<rparr>)
             (run [(0, Connect), (0, PressStart \<lparr>isTouch = True, clientX = 100, clientY = 100\<rparr>)]
                (initial exampleConfig)))))"
      "\<lparr>isTouch = True, clientX = 100, clientY = 100\<rparr>" 100 100
      "step (100, PressEnd \<lparr>isTouch = True, clientX = 100, clientY = 100\<rparr>)
     (run [(90, PressStart \<lparr>isTouch = True, clientX = 100, clientY = 100\<rparr>)]
       (step (50, PressEnd \<lparr>isTouch = True, clientX = 100, clientY = 100\<rparr>)
         (run [(40, PressStart \<lparr>isTouch = True, clientX = 100, clientY = 100\<rparr>)]
           (step (0, PressEnd \<lparr>isTouch = True, clientX = 100, clientY = 100\<rparr>)
             (run [(0, Connect), (0, PressStart \<lparr>isTouch = True, clientX = 100, clientY = 100\<rparr>)]
                (initial exampleConfig))))))"]
  by (simp add: eval_simps)

subsection \<open>Teardown\<close>




end
